theory Spec2Isabelle
  imports Main
begin

section \<open>Errors\<close>

text \<open>
  The exceptions the library raises or lets through. A function that can raise returns
  \<open>error + 'a\<close>, with \<open>Inl\<close> the exception.
\<close>

datatype error =
    ValueError string
  | IndexError
  | KeyError string
  | OSError string

section \<open>Directory enumeration\<close>

text \<open>
  An \<open>os.DirEntry\<close>: its name, its full path and the answers of \<open>is_file()\<close> and
  \<open>is_dir()\<close>. A socket or a dangling symbolic link answers \<open>False\<close> to both.
  \<open>os.scandir(path)\<close> is the file system, a function from a path to the entries of the
  directory, or to the error the operating system reports.
\<close>

datatype DirEntry = DirEntry (entry_name: string) (entry_path: string) (is_file: bool) (is_dir: bool)

type_synonym filesystem = "string \<Rightarrow> error + DirEntry list"

definition type_error :: error where
  "type_error = ValueError ''type input error, type is 0 or 1 or 2.''"

text \<open>The body of \<open>for entry in it\<close> in \<open>entry_contents\<close>, with \<open>contents\<close> the list built so far.\<close>

fun entry_contents_loop :: "DirEntry list \<Rightarrow> int \<Rightarrow> string list \<Rightarrow> error + string list" where
  "entry_contents_loop [] type' contents = Inr contents"
| "entry_contents_loop (entry # it) type' contents =
     (if type' = 0 then entry_contents_loop it type' (contents @ [entry_name entry])
      else if type' = 1 \<and> is_file entry then entry_contents_loop it type' (contents @ [entry_name entry])
      else if type' = 2 \<and> is_dir entry then entry_contents_loop it type' (contents @ [entry_name entry])
      else Inl type_error)"

definition entry_contents :: "filesystem \<Rightarrow> string \<Rightarrow> int \<Rightarrow> error + string list" where
  "entry_contents fs path type' =
     (case fs path of Inl e \<Rightarrow> Inl e | Inr it \<Rightarrow> entry_contents_loop it type' [])"

fun entry_contents_path_loop :: "DirEntry list \<Rightarrow> int \<Rightarrow> string list \<Rightarrow> error + string list" where
  "entry_contents_path_loop [] type' contents = Inr contents"
| "entry_contents_path_loop (entry # it) type' contents =
     (if type' = 0 then entry_contents_path_loop it type' (contents @ [entry_path entry])
      else if type' = 1 \<and> is_file entry then entry_contents_path_loop it type' (contents @ [entry_path entry])
      else if type' = 2 \<and> is_dir entry then entry_contents_path_loop it type' (contents @ [entry_path entry])
      else Inl type_error)"

definition entry_contents_path :: "filesystem \<Rightarrow> string \<Rightarrow> int \<Rightarrow> error + string list" where
  "entry_contents_path fs path type' =
     (case fs path of Inl e \<Rightarrow> Inl e | Inr it \<Rightarrow> entry_contents_path_loop it type' [])"

text \<open>\<open>get_files\<close> and \<open>get_dirs\<close>: the loops that skip the entries of the other kind.\<close>

fun get_files_loop :: "DirEntry list \<Rightarrow> string list \<Rightarrow> string list" where
  "get_files_loop [] files = files"
| "get_files_loop (entry # it) files =
     (if is_file entry then get_files_loop it (files @ [entry_name entry]) else get_files_loop it files)"

definition get_files :: "filesystem \<Rightarrow> string \<Rightarrow> error + string list" where
  "get_files fs path = (case fs path of Inl e \<Rightarrow> Inl e | Inr it \<Rightarrow> Inr (get_files_loop it []))"

fun get_dirs_loop :: "DirEntry list \<Rightarrow> string list \<Rightarrow> string list" where
  "get_dirs_loop [] dirs = dirs"
| "get_dirs_loop (entry # it) dirs =
     (if is_dir entry then get_dirs_loop it (dirs @ [entry_name entry]) else get_dirs_loop it dirs)"

definition get_dirs :: "filesystem \<Rightarrow> string \<Rightarrow> error + string list" where
  "get_dirs fs path = (case fs path of Inl e \<Rightarrow> Inl e | Inr it \<Rightarrow> Inr (get_dirs_loop it []))"

text \<open>
  \<open>entry_contents_dict\<close>: the dictionary maps an entry's name to its path and, at the end,
  the key \<open>name\<close> to the list of names. The loop state is the source's four variables \<open>files\<close>, \<open>dirs\<close>,
  \<open>contents\<close> and \<open>dict_\<close>.
\<close>

datatype dict_value = Path string | Names "string list"

record dict_state =
  st_files :: "string list"
  st_dirs :: "string list"
  st_contents :: "string list"
  st_dict :: "string \<rightharpoonup> dict_value"

fun entry_contents_dict_loop :: "DirEntry list \<Rightarrow> int \<Rightarrow> dict_state \<Rightarrow> error + dict_state" where
  "entry_contents_dict_loop [] type' s = Inr s"
| "entry_contents_dict_loop (entry # it) type' s =
     (if type' = 0 then
        entry_contents_dict_loop it type'
          (s\<lparr>st_dict := (st_dict s)(entry_name entry \<mapsto> Path (entry_path entry)),
             st_contents := st_contents s @ [entry_name entry]\<rparr>)
      else if type' = 1 \<and> is_file entry then
        entry_contents_dict_loop it type'
          (s\<lparr>st_dict := (st_dict s)(entry_name entry \<mapsto> Path (entry_path entry)),
             st_files := st_files s @ [entry_name entry]\<rparr>)
      else if type' = 2 \<and> is_dir entry then
        entry_contents_dict_loop it type'
          (s\<lparr>st_dict := (st_dict s)(entry_name entry \<mapsto> Path (entry_path entry)),
             st_dirs := st_dirs s @ [entry_name entry]\<rparr>)
      else Inl type_error)"

definition entry_contents_dict :: "filesystem \<Rightarrow> string \<Rightarrow> int \<Rightarrow> error + (string \<rightharpoonup> dict_value)" where
  "entry_contents_dict fs path type' =
     (case fs path of
        Inl e \<Rightarrow> Inl e
      | Inr it \<Rightarrow>
          (case entry_contents_dict_loop it type' \<lparr>st_files = [], st_dirs = [], st_contents = [], st_dict = Map.empty\<rparr> of
             Inl e \<Rightarrow> Inl e
           | Inr s \<Rightarrow>
               Inr ((st_dict s)(''name'' \<mapsto>
                      Names (if type' = 0 then st_contents s else if type' = 1 then st_files s else st_dirs s)))))"

definition entry_files_dict :: "filesystem \<Rightarrow> string \<Rightarrow> error + (string \<rightharpoonup> dict_value)" where
  "entry_files_dict fs path = entry_contents_dict fs path 1"

definition entry_dirs_dict :: "filesystem \<Rightarrow> string \<Rightarrow> error + (string \<rightharpoonup> dict_value)" where
  "entry_dirs_dict fs path = entry_contents_dict fs path 2"

text \<open>
  Two directories used below: \<open>/data\<close> holds the file \<open>a.txt\<close> and the directory
  \<open>sub\<close>; \<open>/empty\<close> holds nothing. Every other path is not a directory.
\<close>

definition example_fs :: filesystem where
  "example_fs p =
     (if p = ''/data'' then
        Inr [DirEntry ''a.txt'' ''/data/a.txt'' True False, DirEntry ''sub'' ''/data/sub'' False True]
      else if p = ''/empty'' then Inr []
      else Inl (OSError ''NotADirectoryError''))"

section \<open>Reading tables: dispatch on the file suffix\<close>

text \<open>
  \<open>str.endswith\<close>, and the attributes of a \<open>Read\<close> object. The header is the string
  \<open>infer\<close> by default and may be a row number; the sheet is a number or a name.
\<close>

definition endswith :: "string \<Rightarrow> string \<Rightarrow> bool" where
  "endswith s suffix = (length suffix \<le> length s \<and> drop (length s - length suffix) s = suffix)"

datatype py_header = HeaderStr string | HeaderInt int | HeaderNone

datatype py_sheet = SheetIndex int | SheetName string

record Read =
  read_sep :: string
  read_line_terminator :: string
  read_encoding :: string
  read_orient :: string
  read_lines :: bool
  read_header :: py_header
  read_sheet_name :: py_sheet
  read_low_memory :: bool

text \<open>
  The calls into pandas that \<open>get_content\<close> can make, with their arguments in the order
  of the source. What pandas does with a call is a parameter \<open>pd\<close> of the model: it
  returns a table or raises.
\<close>

datatype pd_read_call =
    Read_table string string py_header string bool
  | Read_csv string string py_header string bool
  | Read_excel string py_sheet py_header
  | Read_html string py_header string
  | Read_json string string bool string

definition returned :: "error + 'a \<Rightarrow> error + 'a option" where
  "returned r = (case r of Inl e \<Rightarrow> Inl e | Inr v \<Rightarrow> Inr (Some v))"

definition isinstance_int :: "py_header \<Rightarrow> bool" where
  "isinstance_int h = (case h of HeaderInt _ \<Rightarrow> True | _ \<Rightarrow> False)"

text \<open>
  \<open>Read.get_content\<close> of the package's \<open>__init__\<close> module. The chain of \<open>elif\<close> has no
  \<open>else\<close>: falling off its end returns \<open>None\<close>, here \<open>Inr None\<close>.
\<close>

definition get_content :: "(pd_read_call \<Rightarrow> error + 'df) \<Rightarrow> Read \<Rightarrow> string \<Rightarrow> error + 'df option" where
  "get_content pd self file =
     (if endswith file ''.txt'' \<or> endswith file ''.bed'' then
        returned (pd (Read_table file (read_sep self) (read_header self) (read_encoding self) (read_low_memory self)))
      else if endswith file ''.csv'' then
        returned (pd (Read_csv file '','' (read_header self) (read_encoding self) (read_low_memory self)))
      else if endswith file ''.xls'' \<or> endswith file ''.xlsx'' then
        returned (pd (Read_excel file (read_sheet_name self)
                        (if isinstance_int (read_header self) then read_header self else HeaderInt 0)))
      else if endswith file ''.html'' \<or> endswith file ''.htm'' then
        returned (pd (Read_html file (read_header self) (read_encoding self)))
      else if endswith file ''.json'' then
        returned (pd (Read_json file (read_orient self) (read_lines self) (read_encoding self)))
      else Inr None)"

text \<open>\<open>Read.get_content\<close> of the module \<open>_read_\<close>, which also takes \<open>.tsv\<close>.\<close>

definition get_content_read :: "(pd_read_call \<Rightarrow> error + 'df) \<Rightarrow> Read \<Rightarrow> string \<Rightarrow> error + 'df option" where
  "get_content_read pd self file =
     (if endswith file ''.txt'' \<or> endswith file ''.bed'' \<or> endswith file ''.tsv'' then
        returned (pd (Read_table file (read_sep self) (read_header self) (read_encoding self) (read_low_memory self)))
      else if endswith file ''.csv'' then
        returned (pd (Read_csv file '','' (read_header self) (read_encoding self) (read_low_memory self)))
      else if endswith file ''.xls'' \<or> endswith file ''.xlsx'' then
        returned (pd (Read_excel file (read_sheet_name self)
                        (if isinstance_int (read_header self) then read_header self else HeaderInt 0)))
      else if endswith file ''.html'' \<or> endswith file ''.htm'' then
        returned (pd (Read_html file (read_header self) (read_encoding self)))
      else if endswith file ''.json'' then
        returned (pd (Read_json file (read_orient self) (read_lines self) (read_encoding self)))
      else Inr None)"

text \<open>A \<open>Read\<close> object with the default arguments of the constructor.\<close>

definition default_Read :: Read where
  "default_Read = \<lparr>read_sep = [CHR 0x09], read_line_terminator = [CHR 0x0A],
     read_encoding = ''utf-8'', read_orient = ''records'', read_lines = True,
     read_header = HeaderStr ''infer'', read_sheet_name = SheetIndex 0, read_low_memory = False\<rparr>"

section \<open>Reading a file line by line\<close>

text \<open>
  A text file is the string of its characters after decoding, with every line ending
  already \<open>\n\<close> as Python's text mode delivers it; characters are the code points
  below 256. \<open>f.readline()\<close> returns the characters up to and including the next
  newline, or what is left at the end of the file, and the empty string from then on.
  It is modelled on the unread rest of the file: the line read and the new rest.
\<close>

definition newline :: char where
  "newline = CHR 0x0A"

fun readline :: "string \<Rightarrow> string \<times> string" where
  "readline [] = ([], [])"
| "readline (c # cs) =
     (if c = newline then ([c], cs) else (c # fst (readline cs), snd (readline cs)))"

text \<open>\<open>str.isspace\<close> on one character and \<open>str.strip()\<close> without argument.\<close>

definition isspace :: "char \<Rightarrow> bool" where
  "isspace c = (c \<in> set [CHR 0x09, CHR 0x0A, CHR 0x0B, CHR 0x0C, CHR 0x0D, CHR 0x1C, CHR 0x1D,
                          CHR 0x1E, CHR 0x1F, CHR 0x20, CHR 0x85, CHR 0xA0])"

definition strip :: "string \<Rightarrow> string" where
  "strip s = rev (dropWhile isspace (rev (dropWhile isspace s)))"

lemma readline_splits: "fst (readline f) @ snd (readline f) = f"
  by (induction f) simp_all

lemma strip_Nil: "strip [] = []"
  by (simp add: strip_def)

lemma readline_rest_shorter:
  assumes "strip (fst (readline f)) \<noteq> []"
  shows "length (snd (readline f)) < length f"
proof -
  have "fst (readline f) \<noteq> []"
    using assms strip_Nil by metis
  moreover have "length (fst (readline f)) + length (snd (readline f)) = length f"
    using readline_splits [of f] by (metis length_append)
  ultimately show ?thesis
    by (cases "fst (readline f)") simp_all
qed

text \<open>
  The \<open>while True\<close> loop of \<open>read_file_line\<close>: \<open>f\<close> is the unread rest of the file,
  \<open>content\<close> the list so far. The loop is left when the stripped line is empty; until
  then every turn reads at least one character, which is why it ends.
\<close>

function read_file_line_loop :: "string \<Rightarrow> string list \<Rightarrow> string list" where
  "read_file_line_loop f content =
     (if strip (fst (readline f)) = [] then content @ [strip (fst (readline f))]
      else read_file_line_loop (snd (readline f)) (content @ [strip (fst (readline f))]))"
  by pat_completeness auto
termination
  by (relation "measure (\<lambda>(f, content). length f)") (simp_all add: readline_rest_shorter)

text \<open>\<open>open(path)\<close> is a parameter: the content of the file at a path, or the error raised.\<close>

definition read_file_line :: "(string \<Rightarrow> error + string) \<Rightarrow> string \<Rightarrow> error + string list" where
  "read_file_line open' path =
     (case open' path of Inl e \<Rightarrow> Inl e | Inr f \<Rightarrow> Inr (read_file_line_loop f []))"

text \<open>A raw line as \<open>readline\<close> returns it before the end of the file: it ends at its only newline.\<close>

definition is_line :: "string \<Rightarrow> bool" where
  "is_line l = (l \<noteq> [] \<and> last l = newline \<and> newline \<notin> set (butlast l))"

text \<open>A file of four lines, the third of them blank.\<close>

definition example_open :: "string \<Rightarrow> error + string" where
  "example_open p =
     (if p = ''/notes.txt'' then
        Inr (''ab'' @ [newline] @ '' c '' @ [newline] @ ''  '' @ [newline] @ ''d'' @ [newline])
      else Inl (OSError ''FileNotFoundError''))"

section \<open>Tables and the \<open>Create\<close> helpers\<close>

text \<open>
  A table (a pandas \<open>DataFrame\<close>) is its column names and its rows, every row holding one
  value per column. The attributes of a \<open>Create\<close> object follow.
\<close>

record 'v DataFrame =
  columns :: "string list"
  rows :: "'v list list"

record Create =
  create_sep :: string
  create_line_terminator :: string
  create_encoding :: string
  create_index :: bool
  create_header :: bool
  create_sheet_name :: string

definition default_Create :: Create where
  "default_Create = \<lparr>create_sep = [CHR 0x09], create_line_terminator = [CHR 0x0A],
     create_encoding = ''utf_8_sig'', create_index = False, create_header = True,
     create_sheet_name = ''new_sheet''\<rparr>"

text \<open>
  \<open>to_file\<close> writes through pandas; the model returns the call it makes, with the
  arguments in the order of the source. The last branch is the plain dump of
  \<open>df.to_string\<close> into the opened file.
\<close>

datatype 'df pd_write_call =
    To_csv 'df string string string bool string bool
  | To_excel 'df string string bool bool
  | To_string 'df string

definition to_file :: "Create \<Rightarrow> 'df \<Rightarrow> string \<Rightarrow> 'df pd_write_call" where
  "to_file self df file =
     (if endswith file ''.txt'' then
        To_csv df file (create_sep self) (create_line_terminator self) (create_header self)
          (create_encoding self) (create_index self)
      else if endswith file ''.csv'' then
        To_csv df file '','' (create_line_terminator self) (create_header self)
          (create_encoding self) (create_index self)
      else if endswith file ''.xls'' \<or> endswith file ''.xlsx'' then
        To_excel df file (create_sheet_name self) (create_header self) (create_index self)
      else To_string df file)"

text \<open>
  The \<open>if output_file is not None: self.to_file(...)\<close> that ends every helper: the list of
  the writes made, empty or of one call.
\<close>

definition save :: "Create \<Rightarrow> 'df \<Rightarrow> string option \<Rightarrow> 'df pd_write_call list" where
  "save self df output_file =
     (case output_file of None \<Rightarrow> [] | Some file \<Rightarrow> [to_file self df file])"

text \<open>Sequencing of steps that can raise: the first error ends the computation.\<close>

definition and_then :: "error + 'a \<Rightarrow> ('a \<Rightarrow> error + 'b) \<Rightarrow> error + 'b" where
  "and_then m f = (case m of Inl e \<Rightarrow> Inl e | Inr x \<Rightarrow> f x)"

text \<open>
  The assignment \<open>df.columns = names\<close>: pandas renames the columns in place and raises a
  \<open>ValueError\<close> when the number of names is not the number of columns.
\<close>

definition set_columns :: "'v DataFrame \<Rightarrow> string list \<Rightarrow> error + 'v DataFrame" where
  "set_columns df names =
     (if length names = length (columns df) then Inr (df\<lparr>columns := names\<rparr>)
      else Inl (ValueError ''Length mismatch''))"

text \<open>
  The statistics of \<open>add_calculation_by_group\<close>. What pandas computes for
  \<open>df.groupby(group)[column].size().reset_index()\<close> and its nine siblings is a parameter
  \<open>groupby\<close> of the model: a table, or an error.
\<close>

datatype agg = Agg_size | Agg_mean | Agg_var | Agg_sem | Agg_std | Agg_median | Agg_min | Agg_max
  | Agg_sum | Agg_prod

type_synonym 'v groupby = "agg \<Rightarrow> 'v DataFrame \<Rightarrow> string \<Rightarrow> string \<Rightarrow> error + 'v DataFrame"

text \<open>
  The two lines the source repeats for every statistic: the grouped statistic as a table,
  then its columns named \<open>[group, f"{column}_<suffix>"]\<close>.
\<close>

definition grouped :: "'v groupby \<Rightarrow> agg \<Rightarrow> 'v DataFrame \<Rightarrow> string \<Rightarrow> string \<Rightarrow> string \<Rightarrow> error + 'v DataFrame" where
  "grouped groupby a df group' column suffix =
     and_then (groupby a df group' column) (\<lambda>t. set_columns t [group', column @ suffix])"

definition add_sum_by_group ::
  "'v groupby \<Rightarrow> Create \<Rightarrow> 'v DataFrame \<Rightarrow> string \<Rightarrow> string \<Rightarrow> string option
     \<Rightarrow> error + 'v DataFrame \<times> 'v DataFrame pd_write_call list" where
  "add_sum_by_group groupby self df group' column output_file =
     and_then (grouped groupby Agg_sum df group' column ''_sum'') (\<lambda>column_sum.
     Inr (column_sum, save self column_sum output_file))"

text \<open>
  \<open>merge_files\<close>: \<open>files[0]\<close> raises \<open>IndexError\<close> on the empty list; the \<open>while\<close> loop
  merges the tables after the first into \<open>new_file\<close>, one by one from the left.
  \<open>pd.merge(new_file, files[i], on=on)\<close> is the parameter \<open>merge\<close>. The function returns
  nothing; the model returns the write it makes.
\<close>

type_synonym 'v pd_merge = "'v DataFrame \<Rightarrow> 'v DataFrame \<Rightarrow> string \<Rightarrow> error + 'v DataFrame"

fun merge_loop :: "'v pd_merge \<Rightarrow> 'v DataFrame \<Rightarrow> 'v DataFrame list \<Rightarrow> string \<Rightarrow> error + 'v DataFrame" where
  "merge_loop merge new_file [] on = Inr new_file"
| "merge_loop merge new_file (f # fs) on =
     and_then (merge new_file f on) (\<lambda>new_file. merge_loop merge new_file fs on)"

definition merge_files ::
  "'v pd_merge \<Rightarrow> Create \<Rightarrow> 'v DataFrame list \<Rightarrow> string \<Rightarrow> string option
     \<Rightarrow> error + 'v DataFrame pd_write_call list" where
  "merge_files merge self files on output_file =
     (case files of
        [] \<Rightarrow> Inl IndexError
      | new_file # fs \<Rightarrow>
          and_then (merge_loop merge new_file fs on) (\<lambda>new_file.
          Inr (save self new_file output_file)))"

text \<open>
  \<open>add_calculation_by_group\<close> returns \<open>all_merge_files\<close>, which \<open>extend\<close> has changed
  in place when an output file and \<open>add_merge_files\<close> are both given.
\<close>

definition add_calculation_by_group ::
  "'v groupby \<Rightarrow> 'v pd_merge \<Rightarrow> Create \<Rightarrow> 'v DataFrame \<Rightarrow> string \<Rightarrow> string \<Rightarrow> string option
     \<Rightarrow> 'v DataFrame list option \<Rightarrow> error + 'v DataFrame list \<times> 'v DataFrame pd_write_call list" where
  "add_calculation_by_group groupby merge self df group' column output_file add_merge_files =
     and_then (grouped groupby Agg_size df group' column ''_size'') (\<lambda>column_size.
     and_then (grouped groupby Agg_mean df group' column ''_mean'') (\<lambda>column_mean.
     and_then (grouped groupby Agg_var df group' column ''_var'') (\<lambda>column_var.
     and_then (grouped groupby Agg_sem df group' column ''_sem'') (\<lambda>column_sem.
     and_then (grouped groupby Agg_std df group' column ''_std'') (\<lambda>column_std.
     and_then (grouped groupby Agg_median df group' column ''_median'') (\<lambda>column_median.
     and_then (grouped groupby Agg_min df group' column ''_min'') (\<lambda>column_min.
     and_then (grouped groupby Agg_max df group' column ''_max'') (\<lambda>column_max.
     and_then (add_sum_by_group groupby self df group' column None) (\<lambda>(column_sum, written).
     and_then (grouped groupby Agg_prod df group' column ''_prod'') (\<lambda>column_prod.
       (let all_merge_files = [column_size, column_mean, column_var, column_sem, column_std,
                               column_median, column_min, column_max, column_sum, column_prod]
        in case output_file of
             None \<Rightarrow> Inr (all_merge_files, written)
           | Some file \<Rightarrow>
               (let all_merge_files =
                      (case add_merge_files of
                         None \<Rightarrow> all_merge_files
                       | Some added \<Rightarrow> all_merge_files @ added)
                in and_then (merge_files merge self all_merge_files group' output_file) (\<lambda>merged.
                   Inr (all_merge_files, written @ merged))))))))))))))"

text \<open>
  The value a row holds in the column of a given name, if it has one. A table carries a
  key when the key is one of its columns and every row has a value for every column; its
  key values are the values of the key column, row by row.
\<close>

definition cell :: "string list \<Rightarrow> 'v list \<Rightarrow> string \<Rightarrow> 'v option" where
  "cell cols row c = map_of (zip cols row) c"

definition carries :: "'v DataFrame \<Rightarrow> string \<Rightarrow> bool" where
  "carries t on = (on \<in> set (columns t) \<and> list_all (\<lambda>r. length r = length (columns t)) (rows t))"

definition key_values :: "'v DataFrame \<Rightarrow> string \<Rightarrow> 'v option list" where
  "key_values t on = map (\<lambda>r. cell (columns t) r on) (rows t)"

text \<open>
  The statistics in the order of \<open>all_merge_files\<close>, each with the suffix of its column.
\<close>

definition statistics :: "(agg \<times> string) list" where
  "statistics = [(Agg_size, ''_size''), (Agg_mean, ''_mean''), (Agg_var, ''_var''),
     (Agg_sem, ''_sem''), (Agg_std, ''_std''), (Agg_median, ''_median''), (Agg_min, ''_min''),
     (Agg_max, ''_max''), (Agg_sum, ''_sum''), (Agg_prod, ''_prod'')]"

text \<open>
  What a derived table is: pandas returned a table of two columns for the statistic, and
  the derived table is that table with its columns renamed to the group key and the
  column name with the suffix.
\<close>

definition derived :: "'v groupby \<Rightarrow> 'v DataFrame \<Rightarrow> string \<Rightarrow> string \<Rightarrow> agg \<times> string \<Rightarrow> 'v DataFrame \<Rightarrow> bool" where
  "derived groupby df group' column stat t =
     (case groupby (fst stat) df group' column of
        Inl e \<Rightarrow> False
      | Inr t0 \<Rightarrow> length (columns t0) = 2 \<and> t = t0\<lparr>columns := [group', column @ snd stat]\<rparr>)"

text \<open>
  The name of the first column of a table, if it has a column, and the values of the
  first column, row by row.
\<close>

definition first_column :: "'v DataFrame \<Rightarrow> string option" where
  "first_column t = (case columns t of [] \<Rightarrow> None | c # cs \<Rightarrow> Some c)"

definition first_values :: "'v DataFrame \<Rightarrow> 'v option list" where
  "first_values t = map (\<lambda>r. case r of [] \<Rightarrow> None | v # vs \<Rightarrow> Some v) (rows t)"

text \<open>
  What pandas' \<open>groupby(group)[column].<statistic>().reset_index()\<close> promises of its
  result \<open>t0\<close> for the table \<open>df\<close>: rows of two values, the first of them the group key,
  every value of the column \<open>group\<close> of \<open>df\<close> in exactly one row. This is pandas' part; the
  helpers neither check nor establish it.
\<close>

definition group_index :: "'v DataFrame \<Rightarrow> string \<Rightarrow> 'v DataFrame \<Rightarrow> bool" where
  "group_index df group' t0 =
     (list_all (\<lambda>r. length r = 2) (rows t0) \<and> distinct (first_values t0)
      \<and> set (first_values t0) = set (key_values df group'))"

text \<open>
  What the claim asks of a derived table \<open>t\<close>: its first column is named as the group key,
  the table has that column with a value in every row (so that it can be the key of a
  merge), and the column holds every group key of \<open>df\<close> exactly once.
\<close>

definition group_key_column :: "'v DataFrame \<Rightarrow> string \<Rightarrow> 'v DataFrame \<Rightarrow> bool" where
  "group_key_column df group' t =
     (first_column t = Some group' \<and> carries t group' \<and> distinct (key_values t group')
      \<and> set (key_values t group') = set (key_values df group'))"

text \<open>
  A stand-in for pandas' grouped statistics, used to run the helpers below: one row per
  key in ascending order, the key first and then, whatever the statistic, the sum of the
  group's values; a missing column raises \<open>KeyError\<close>. The table \<open>example_df\<close> has two
  rows of the group 2 and one of the group 1.
\<close>

definition group_sum :: "int DataFrame \<Rightarrow> string \<Rightarrow> string \<Rightarrow> int \<Rightarrow> int" where
  "group_sum df group' column k =
     sum_list (List.map_filter
       (\<lambda>r. if cell (columns df) r group' = Some k then cell (columns df) r column else None)
       (rows df))"

definition example_groupby :: "int groupby" where
  "example_groupby a df group' column =
     (if group' \<notin> set (columns df) then Inl (KeyError group')
      else if column \<notin> set (columns df) then Inl (KeyError column)
      else Inr \<lparr>columns = [group', column],
                rows = map (\<lambda>k. [k, group_sum df group' column k])
                         (sort (remdups (List.map_filter id (key_values df group'))))\<rparr>)"

definition example_df :: "int DataFrame" where
  "example_df = \<lparr>columns = [''id'', ''x''], rows = [[2, 20], [1, 10], [2, 5]]\<rparr>"

section \<open>The join of \<open>merge_files\<close>\<close>

text \<open>
  Modelled from the spec: \<open>pd.merge(left, right, on=on)\<close> is a function of pandas, which
  the repository calls and does not contain. The spec calls it an inner join, "merge
  keeping only rows whose key exists in both inputs", and \<open>merge_files\<close> a "left-to-right
  sequential inner join". The model: a missing key column raises \<open>KeyError\<close>; the result
  has the columns of the left table, then those of the right table without the key; its
  rows are, for every row of the left table in order, the rows of the right table with
  the same key value in order, each appended without its key. The renaming of columns
  that carry the same name in both tables is not modelled.
\<close>

definition without :: "string \<Rightarrow> string list \<Rightarrow> 'v list \<Rightarrow> 'v list" where
  "without on cols row = map snd (filter (\<lambda>(c, v). c \<noteq> on) (zip cols row))"

definition join_rows :: "string \<Rightarrow> string list \<Rightarrow> 'v list list \<Rightarrow> string list \<Rightarrow> 'v list list \<Rightarrow> 'v list list" where
  "join_rows on lcols lrows rcols rrows =
     concat (map (\<lambda>l. map (\<lambda>r. l @ without on rcols r)
                          (filter (\<lambda>r. cell rcols r on = cell lcols l on) rrows)) lrows)"

definition inner_join :: "'v DataFrame \<Rightarrow> 'v DataFrame \<Rightarrow> string \<Rightarrow> 'v DataFrame" where
  "inner_join left right on =
     \<lparr>columns = columns left @ filter (\<lambda>c. c \<noteq> on) (columns right),
      rows = join_rows on (columns left) (rows left) (columns right) (rows right)\<rparr>"

definition pd_merge :: "'v pd_merge" where
  "pd_merge left right on =
     (if on \<notin> set (columns left) \<or> on \<notin> set (columns right) then Inl (KeyError on)
      else Inr (inner_join left right on))"

text \<open>
  A grouping of pairwise joins over tables in a fixed order: one table, or the join of
  two groupings. \<open>tables\<close> lists the tables from left to right.
\<close>

datatype 'a grouping = Table 'a | Merged "'a grouping" "'a grouping"

fun tables :: "'a grouping \<Rightarrow> 'a list" where
  "tables (Table t) = [t]"
| "tables (Merged l r) = tables l @ tables r"

fun merge_grouping :: "'v pd_merge \<Rightarrow> 'v DataFrame grouping \<Rightarrow> string \<Rightarrow> error + 'v DataFrame" where
  "merge_grouping merge (Table t) on = Inr t"
| "merge_grouping merge (Merged l r) on =
     and_then (merge_grouping merge l on) (\<lambda>a.
     and_then (merge_grouping merge r on) (\<lambda>b. merge a b on))"

text \<open>Three tables keyed by \<open>id\<close>, and a fourth whose ids are none of the first's.\<close>

definition example_a :: "int DataFrame" where
  "example_a = \<lparr>columns = [''id'', ''x''], rows = [[1, 10], [2, 20], [3, 30]]\<rparr>"

definition example_b :: "int DataFrame" where
  "example_b = \<lparr>columns = [''y'', ''id''], rows = [[200, 2], [300, 3], [400, 4]]\<rparr>"

definition example_c :: "int DataFrame" where
  "example_c = \<lparr>columns = [''id'', ''z''], rows = [[3, 3000], [2, 2000]]\<rparr>"

definition example_d :: "int DataFrame" where
  "example_d = \<lparr>columns = [''id'', ''w''], rows = [[7, 70], [8, 80]]\<rparr>"

section \<open>Directory enumeration: what the loops do\<close>

lemma get_files_loop_filter:
  "get_files_loop it acc = acc @ map entry_name (filter is_file it)"
  by (induction it arbitrary: acc) simp_all

lemma get_dirs_loop_filter:
  "get_dirs_loop it acc = acc @ map entry_name (filter is_dir it)"
  by (induction it arbitrary: acc) simp_all

lemma entry_contents_loop_all:
  "entry_contents_loop it 0 acc = Inr (acc @ map entry_name it)"
  by (induction it arbitrary: acc) simp_all

lemma entry_contents_loop_files:
  "entry_contents_loop it 1 acc =
     (if \<forall>e \<in> set it. is_file e then Inr (acc @ map entry_name it) else Inl type_error)"
  by (induction it arbitrary: acc) simp_all

lemma entry_contents_loop_dirs:
  "entry_contents_loop it 2 acc =
     (if \<forall>e \<in> set it. is_dir e then Inr (acc @ map entry_name it) else Inl type_error)"
  by (induction it arbitrary: acc) simp_all

lemma entry_contents_loop_invalid:
  "type' \<notin> {0, 1, 2} \<Longrightarrow>
     entry_contents_loop it type' acc = (if it = [] then Inr acc else Inl type_error)"
  by (cases it) simp_all

text \<open>
  C1. The claim: with the files-only selector 1 the enumeration returns exactly the names
  of the files, with the directories-only selector 2 exactly those of the directories,
  and the entries of the other kind are left out without error. The code does not leave
  them out: on a directory that holds a file and a sub-directory, \<open>entry_contents\<close> and
  \<open>entry_contents_path\<close> raise the \<open>ValueError\<close> of the invalid selector for either
  selector, where \<open>get_files\<close> and \<open>get_dirs\<close> return the names of the one kind.
\<close>

theorem entry_contents_raises_on_other_kind:
  "entry_contents example_fs ''/data'' 1 = Inl (ValueError ''type input error, type is 0 or 1 or 2.'')
   \<and> entry_contents example_fs ''/data'' 2 = Inl (ValueError ''type input error, type is 0 or 1 or 2.'')
   \<and> entry_contents_path example_fs ''/data'' 1 = Inl (ValueError ''type input error, type is 0 or 1 or 2.'')
   \<and> entry_contents_path example_fs ''/data'' 2 = Inl (ValueError ''type input error, type is 0 or 1 or 2.'')
   \<and> get_files example_fs ''/data'' = Inr [''a.txt'']
   \<and> get_dirs example_fs ''/data'' = Inr [''sub'']"
  by (simp add: entry_contents_def entry_contents_path_def get_files_def get_dirs_def
      example_fs_def type_error_def)

text \<open>
  C2. The claim: a selector outside 0, 1, 2 raises the \<open>ValueError\<close> that names the three
  values, on every directory, and the error is raised for no other reason. The code looks
  at the selector only inside the loop over the entries. On an empty directory the
  invalid selector 3 raises nothing: \<open>entry_contents\<close> returns the empty list and
  \<open>entry_contents_dict\<close> the dictionary with the one key \<open>name\<close>. And the valid
  selector 1 raises that error as soon as the directory holds an entry that is not a file.
\<close>

theorem entry_contents_selector_check_misplaced:
  "entry_contents example_fs ''/empty'' 3 = Inr []
   \<and> entry_contents_dict example_fs ''/empty'' 3 = Inr [''name'' \<mapsto> Names []]
   \<and> entry_contents_dict example_fs ''/data'' 1 = Inl (ValueError ''type input error, type is 0 or 1 or 2.'')
   \<and> entry_files_dict example_fs ''/data'' = Inl (ValueError ''type input error, type is 0 or 1 or 2.'')"
  by (simp add: entry_contents_def entry_contents_dict_def entry_files_dict_def
      example_fs_def type_error_def)

section \<open>Reading tables: an unknown suffix\<close>

text \<open>
  C3. For a path that ends in none of \<open>.txt\<close>, \<open>.bed\<close>, \<open>.tsv\<close>, \<open>.csv\<close>, \<open>.xls\<close>,
  \<open>.xlsx\<close>, \<open>.html\<close>, \<open>.htm\<close>, \<open>.json\<close>, both versions of \<open>get_content\<close> return
  \<open>None\<close> without raising, whatever pandas would do with a call: none is made.
\<close>

theorem get_content_unknown_suffix:
  assumes "\<not> endswith file ''.txt''" and "\<not> endswith file ''.bed''" and "\<not> endswith file ''.tsv''"
    and "\<not> endswith file ''.csv''" and "\<not> endswith file ''.xls''" and "\<not> endswith file ''.xlsx''"
    and "\<not> endswith file ''.html''" and "\<not> endswith file ''.htm''" and "\<not> endswith file ''.json''"
  shows "get_content pd self file = Inr None \<and> get_content_read pd self file = Inr None"
  using assms by (simp add: get_content_def get_content_read_def)

theorem get_content_unknown_suffix_witness:
  "\<not> endswith ''table.parquet'' ''.txt'' \<and> \<not> endswith ''table.parquet'' ''.bed''
   \<and> \<not> endswith ''table.parquet'' ''.tsv'' \<and> \<not> endswith ''table.parquet'' ''.csv''
   \<and> \<not> endswith ''table.parquet'' ''.xls'' \<and> \<not> endswith ''table.parquet'' ''.xlsx''
   \<and> \<not> endswith ''table.parquet'' ''.html'' \<and> \<not> endswith ''table.parquet'' ''.htm''
   \<and> \<not> endswith ''table.parquet'' ''.json''
   \<and> get_content (\<lambda>c. Inl (OSError ''unreadable'') :: error + unit) default_Read ''table.parquet'' = Inr None
   \<and> get_content_read (\<lambda>c. Inl (OSError ''unreadable'') :: error + unit) default_Read ''table.parquet'' = Inr None"
  using get_content_unknown_suffix
    [of "''table.parquet''" "\<lambda>c. Inl (OSError ''unreadable'') :: error + unit" default_Read]
  by (simp add: endswith_def)

section \<open>Writing and reading: the same format on both sides\<close>

text \<open>
  For the suffixes \<open>to_file\<close> knows (\<open>.txt\<close>, \<open>.csv\<close>, \<open>.xls\<close>, \<open>.xlsx\<close>),
  \<open>to_file\<close> and \<open>get_content\<close> hand the file to the writer and the reader of the same
  format, with the separator of the object for \<open>.txt\<close> and the comma for \<open>.csv\<close>. What
  the writer puts into the file and the reader makes of it is pandas' part.
\<close>

lemma endswith_iff: "endswith s suffix \<longleftrightarrow> (\<exists>p. s = p @ suffix)"
proof
  assume "endswith s suffix"
  then have "s = take (length s - length suffix) s @ suffix"
    by (metis append_take_drop_id endswith_def)
  then show "\<exists>p. s = p @ suffix" ..
next
  assume "\<exists>p. s = p @ suffix"
  then show "endswith s suffix" by (auto simp add: endswith_def)
qed

lemma write_read_txt:
  assumes "endswith file ''.txt''"
  shows "to_file c df file
           = To_csv df file (create_sep c) (create_line_terminator c) (create_header c)
               (create_encoding c) (create_index c)"
    and "get_content pd r file
           = returned (pd (Read_table file (read_sep r) (read_header r) (read_encoding r) (read_low_memory r)))"
  using assms by (simp_all add: to_file_def get_content_def)

lemma write_read_csv:
  assumes "endswith file ''.csv''"
  shows "to_file c df file
           = To_csv df file '','' (create_line_terminator c) (create_header c)
               (create_encoding c) (create_index c)"
    and "get_content pd r file
           = returned (pd (Read_csv file '','' (read_header r) (read_encoding r) (read_low_memory r)))"
  using assms by (auto simp add: to_file_def get_content_def endswith_iff)

lemma write_read_excel:
  assumes "endswith file ''.xls'' \<or> endswith file ''.xlsx''"
  shows "to_file c df file = To_excel df file (create_sheet_name c) (create_header c) (create_index c)"
    and "get_content pd r file
           = returned (pd (Read_excel file (read_sheet_name r)
                             (if isinstance_int (read_header r) then read_header r else HeaderInt 0)))"
  using assms by (auto simp add: to_file_def get_content_def endswith_iff)

section \<open>Reading a file line by line: the result\<close>

lemma readline_line: "is_line l \<Longrightarrow> readline (l @ rest) = (l, rest)"
proof (induction l)
  case Nil
  then show ?case by (simp add: is_line_def)
next
  case (Cons c l)
  show ?case
  proof (cases "l = []")
    case True
    with Cons.prems show ?thesis by (simp add: is_line_def)
  next
    case False
    with Cons.prems have "is_line l" and "c \<noteq> newline"
      by (auto simp add: is_line_def)
    with Cons.IH show ?thesis by simp
  qed
qed

lemma read_file_line_loop_ends:
  "\<exists>c. read_file_line_loop f acc = acc @ c @ [[]] \<and> [] \<notin> set c"
proof (induction f acc rule: read_file_line_loop.induct)
  case (1 f content)
  show ?case
  proof (cases "strip (fst (readline f)) = []")
    case True
    then have "read_file_line_loop f content = content @ [] @ [[]]"
      by (subst read_file_line_loop.simps) simp
    then show ?thesis by (metis empty_iff list.set(1))
  next
    case False
    from 1 [OF False] obtain c where
      c: "read_file_line_loop (snd (readline f)) (content @ [strip (fst (readline f))])
            = (content @ [strip (fst (readline f))]) @ c @ [[]]" "[] \<notin> set c"
      by blast
    have "read_file_line_loop f content
            = read_file_line_loop (snd (readline f)) (content @ [strip (fst (readline f))])"
      using False by (subst read_file_line_loop.simps) simp
    with c have "read_file_line_loop f content = content @ (strip (fst (readline f)) # c) @ [[]]"
      by simp
    moreover have "[] \<notin> set (strip (fst (readline f)) # c)"
      using False c(2) by auto
    ultimately show ?thesis by blast
  qed
qed

lemma read_file_line_loop_blank:
  assumes "\<forall>l \<in> set ls. is_line l \<and> strip l \<noteq> []" and "is_line b" and "strip b = []"
  shows "read_file_line_loop (concat ls @ b @ rest) acc = acc @ map strip ls @ [[]]"
  using assms(1)
proof (induction ls arbitrary: acc)
  case Nil
  have "readline (b @ rest) = (b, rest)"
    using assms(2) by (rule readline_line)
  then show ?case
    using assms(3) by (subst read_file_line_loop.simps) simp
next
  case (Cons l ls)
  then have l: "is_line l" "strip l \<noteq> []" and ls: "\<forall>l \<in> set ls. is_line l \<and> strip l \<noteq> []"
    by simp_all
  have r: "readline (l @ concat ls @ b @ rest) = (l, concat ls @ b @ rest)"
    using l(1) by (rule readline_line)
  have "read_file_line_loop (concat (l # ls) @ b @ rest) acc
          = read_file_line_loop (concat ls @ b @ rest) (acc @ [strip l])"
    using r l(2) by (subst read_file_line_loop.simps) simp
  also have "\<dots> = (acc @ [strip l]) @ map strip ls @ [[]]"
    using ls by (rule Cons.IH)
  finally show ?case by simp
qed

text \<open>
  C10. On a file that opens, \<open>read_file_line\<close> returns a list that ends in the empty
  string and holds no other empty string; and when the file is a run of lines that are
  not blank, then a line that is blank after stripping, then anything, the result is the
  stripped lines of the run and the empty string: nothing after the blank line is read.
\<close>

theorem read_file_line_stops_at_blank:
  assumes "open' path = Inr f"
  shows "(\<exists>c. read_file_line open' path = Inr (c @ [[]]) \<and> [] \<notin> set c)
         \<and> (\<forall>ls b rest. (\<forall>l \<in> set ls. is_line l \<and> strip l \<noteq> []) \<and> is_line b \<and> strip b = []
                \<and> f = concat ls @ b @ rest
              \<longrightarrow> read_file_line open' path = Inr (map strip ls @ [[]]))"
proof -
  have "\<exists>c. read_file_line_loop f [] = [] @ c @ [[]] \<and> [] \<notin> set c"
    by (rule read_file_line_loop_ends)
  then have first: "\<exists>c. read_file_line open' path = Inr (c @ [[]]) \<and> [] \<notin> set c"
    using assms by (simp add: read_file_line_def)
  have second: "read_file_line open' path = Inr (map strip ls @ [[]])"
    if "\<forall>l \<in> set ls. is_line l \<and> strip l \<noteq> []" "is_line b" "strip b = []"
      "f = concat ls @ b @ rest" for ls b rest
    using read_file_line_loop_blank [OF that(1-3), of rest "[]"] that(4) assms
    by (simp add: read_file_line_def)
  from first second show ?thesis by blast
qed

theorem read_file_line_stops_at_blank_witness:
  "example_open ''/notes.txt''
     = Inr (concat [''ab'' @ [newline], '' c '' @ [newline]] @ (''  '' @ [newline]) @ (''d'' @ [newline]))
   \<and> is_line (''ab'' @ [newline]) \<and> strip (''ab'' @ [newline]) \<noteq> []
   \<and> is_line ('' c '' @ [newline]) \<and> strip ('' c '' @ [newline]) \<noteq> []
   \<and> is_line (''  '' @ [newline]) \<and> strip (''  '' @ [newline]) = []
   \<and> read_file_line example_open ''/notes.txt'' = Inr [''ab'', ''c'', []]"
proof -
  have f: "example_open ''/notes.txt''
     = Inr (concat [''ab'' @ [newline], '' c '' @ [newline]] @ (''  '' @ [newline]) @ (''d'' @ [newline]))"
    by (simp add: example_open_def)
  have l1: "is_line (''ab'' @ [newline]) \<and> strip (''ab'' @ [newline]) = ''ab''"
    by (simp add: is_line_def strip_def isspace_def newline_def)
  have l2: "is_line ('' c '' @ [newline]) \<and> strip ('' c '' @ [newline]) = ''c''"
    by (simp add: is_line_def strip_def isspace_def newline_def)
  have b: "is_line (''  '' @ [newline]) \<and> strip (''  '' @ [newline]) = []"
    by (simp add: is_line_def strip_def isspace_def newline_def)
  note t = read_file_line_stops_at_blank [of example_open "''/notes.txt''"
      "concat [''ab'' @ [newline], '' c '' @ [newline]] @ (''  '' @ [newline]) @ (''d'' @ [newline])", OF f]
  from t have "(\<forall>l \<in> set [''ab'' @ [newline], '' c '' @ [newline]]. is_line l \<and> strip l \<noteq> [])
       \<and> is_line (''  '' @ [newline]) \<and> strip (''  '' @ [newline]) = []
       \<and> concat [''ab'' @ [newline], '' c '' @ [newline]] @ (''  '' @ [newline]) @ (''d'' @ [newline])
          = concat [''ab'' @ [newline], '' c '' @ [newline]] @ (''  '' @ [newline]) @ (''d'' @ [newline])
     \<longrightarrow> read_file_line example_open ''/notes.txt''
          = Inr (map strip [''ab'' @ [newline], '' c '' @ [newline]] @ [[]])"
    by blast
  with l1 l2 b have "read_file_line example_open ''/notes.txt''
          = Inr (map strip [''ab'' @ [newline], '' c '' @ [newline]] @ [[]])"
    by simp
  with f l1 l2 b show ?thesis by simp
qed

section \<open>The aggregation helpers: the tables they return\<close>

lemma and_then_Inr_simp: "and_then (Inr x) f = f x"
  by (simp add: and_then_def)

lemma and_then_Inr: "and_then m f = Inr y \<longleftrightarrow> (\<exists>x. m = Inr x \<and> f x = Inr y)"
  by (cases m) (simp_all add: and_then_def)

lemma grouped_Inr:
  "grouped groupby a df group' column suffix = Inr t \<longleftrightarrow>
     (\<exists>t0. groupby a df group' column = Inr t0 \<and> length (columns t0) = 2
        \<and> t = t0\<lparr>columns := [group', column @ suffix]\<rparr>)"
  by (auto simp add: grouped_def and_then_Inr set_columns_def)

lemma grouped_derived:
  "grouped groupby a df group' column suffix = Inr t \<longleftrightarrow> derived groupby df group' column (a, suffix) t"
  by (auto simp add: grouped_Inr derived_def split: sum.splits)

lemma add_sum_by_group_Inr:
  "add_sum_by_group groupby self df group' column output_file = Inr (t, w) \<longleftrightarrow>
     (\<exists>t0. groupby Agg_sum df group' column = Inr t0 \<and> length (columns t0) = 2
        \<and> t = t0\<lparr>columns := [group', column @ ''_sum'']\<rparr> \<and> w = save self t output_file)"
  by (auto simp add: add_sum_by_group_def and_then_Inr grouped_Inr)

lemma add_sum_by_group_derived:
  "add_sum_by_group groupby self df group' column output_file = Inr (t, w) \<longleftrightarrow>
     derived groupby df group' column (Agg_sum, ''_sum'') t \<and> w = save self t output_file"
  by (auto simp add: add_sum_by_group_Inr derived_def split: sum.splits)

lemma and_then_InrE:
  assumes "and_then m f = Inr y"
  obtains x where "m = Inr x" and "f x = Inr y"
  using assms by (cases m) (simp_all add: and_then_def)

lemma and_then_pair_InrE:
  assumes "and_then m (\<lambda>(a, b). f a b) = Inr y"
  obtains a b where "m = Inr (a, b)" and "f a b = Inr y"
  using assms by (cases m) (auto simp add: and_then_def)

lemma add_calculation_by_group_tables:
  assumes "add_calculation_by_group groupby merge self df group' column output_file add_merge_files = Inr (ts, w)"
  shows "list_all2 (derived groupby df group' column) statistics (take 10 ts)"
proof -
  from assms obtain c1 c2 c3 c4 c5 c6 c7 c8 c9 c10 written where
    g: "grouped groupby Agg_size df group' column ''_size'' = Inr c1"
       "grouped groupby Agg_mean df group' column ''_mean'' = Inr c2"
       "grouped groupby Agg_var df group' column ''_var'' = Inr c3"
       "grouped groupby Agg_sem df group' column ''_sem'' = Inr c4"
       "grouped groupby Agg_std df group' column ''_std'' = Inr c5"
       "grouped groupby Agg_median df group' column ''_median'' = Inr c6"
       "grouped groupby Agg_min df group' column ''_min'' = Inr c7"
       "grouped groupby Agg_max df group' column ''_max'' = Inr c8"
       "grouped groupby Agg_prod df group' column ''_prod'' = Inr c10"
    and s: "add_sum_by_group groupby self df group' column None = Inr (c9, written)"
    and fin: "(case output_file of
             None \<Rightarrow> Inr ([c1, c2, c3, c4, c5, c6, c7, c8, c9, c10], written)
           | Some file \<Rightarrow>
                and_then (merge_files merge self
                     (case add_merge_files of
                         None \<Rightarrow> [c1, c2, c3, c4, c5, c6, c7, c8, c9, c10]
                       | Some added \<Rightarrow> [c1, c2, c3, c4, c5, c6, c7, c8, c9, c10] @ added) group' output_file) (\<lambda>merged.
                   Inr ((case add_merge_files of
                         None \<Rightarrow> [c1, c2, c3, c4, c5, c6, c7, c8, c9, c10]
                       | Some added \<Rightarrow> [c1, c2, c3, c4, c5, c6, c7, c8, c9, c10] @ added), written @ merged))) = Inr (ts, w)"
    unfolding add_calculation_by_group_def Let_def
    by (elim and_then_InrE and_then_pair_InrE) blast
  have k: "list_all2 (derived groupby df group' column) statistics [c1, c2, c3, c4, c5, c6, c7, c8, c9, c10]"
    using g [unfolded grouped_derived] s [unfolded add_sum_by_group_derived]
    by (simp add: statistics_def)
  from fin obtain added where "ts = [c1, c2, c3, c4, c5, c6, c7, c8, c9, c10] @ added"
    by (cases output_file; cases add_merge_files) (auto elim!: and_then_InrE)
  with k show ?thesis by simp
qed

lemma grouped_returns:
  assumes "\<forall>a. \<exists>t0. groupby a df group' column = Inr t0 \<and> length (columns t0) = 2"
  shows "\<exists>t. grouped groupby a df group' column suffix = Inr t"
proof -
  from assms obtain t0 where "groupby a df group' column = Inr t0" "length (columns t0) = 2"
    by blast
  then show ?thesis by (simp add: grouped_Inr)
qed

lemma add_calculation_by_group_returns:
  assumes "\<forall>a. \<exists>t0. groupby a df group' column = Inr t0 \<and> length (columns t0) = 2"
  shows "\<exists>ts w. add_calculation_by_group groupby merge self df group' column None add_merge_files = Inr (ts, w)"
proof -
  have r: "\<exists>t. grouped groupby a df group' column suffix = Inr t" for a suffix
    using assms by (rule grouped_returns)
  obtain c1 where c1: "grouped groupby Agg_size df group' column ''_size'' = Inr c1" using r by blast
  obtain c2 where c2: "grouped groupby Agg_mean df group' column ''_mean'' = Inr c2" using r by blast
  obtain c3 where c3: "grouped groupby Agg_var df group' column ''_var'' = Inr c3" using r by blast
  obtain c4 where c4: "grouped groupby Agg_sem df group' column ''_sem'' = Inr c4" using r by blast
  obtain c5 where c5: "grouped groupby Agg_std df group' column ''_std'' = Inr c5" using r by blast
  obtain c6 where c6: "grouped groupby Agg_median df group' column ''_median'' = Inr c6" using r by blast
  obtain c7 where c7: "grouped groupby Agg_min df group' column ''_min'' = Inr c7" using r by blast
  obtain c8 where c8: "grouped groupby Agg_max df group' column ''_max'' = Inr c8" using r by blast
  obtain c9 where c9: "grouped groupby Agg_sum df group' column ''_sum'' = Inr c9" using r by blast
  obtain c10 where c10: "grouped groupby Agg_prod df group' column ''_prod'' = Inr c10" using r by blast
  show ?thesis
    by (simp add: add_calculation_by_group_def add_sum_by_group_def and_then_Inr_simp
        c1 c2 c3 c4 c5 c6 c7 c8 c9 c10)
qed

lemma cell_first: "cell [g, c] r g = (case r of [] \<Rightarrow> None | v # vs \<Rightarrow> Some v)"
  by (cases r) (simp_all add: cell_def)

lemma derived_key_values:
  assumes "derived groupby df group' column (a, suffix) t"
  obtains t0 where "groupby a df group' column = Inr t0" and "length (columns t0) = 2"
    and "columns t = [group', column @ suffix]" and "rows t = rows t0"
    and "key_values t group' = first_values t0"
proof -
  from assms obtain t0 where t0: "groupby a df group' column = Inr t0" "length (columns t0) = 2"
    and t: "t = t0\<lparr>columns := [group', column @ suffix]\<rparr>"
    by (auto simp add: derived_def split: sum.splits)
  from t have "key_values t group' = first_values t0"
    by (simp add: key_values_def first_values_def cell_first)
  with t0 t show ?thesis
    by (intro that [of t0]) simp_all
qed

lemma derived_group_key_column:
  assumes "derived groupby df group' column (a, suffix) t"
    and "groupby a df group' column = Inr t0" and "group_index df group' t0"
  shows "group_key_column df group' t"
proof -
  from assms(1) obtain t1 where "groupby a df group' column = Inr t1"
    and c: "columns t = [group', column @ suffix]" and r: "rows t = rows t1"
    and k: "key_values t group' = first_values t1"
    by (rule derived_key_values)
  with assms(2) have t1: "t1 = t0" by simp
  from assms(3) have g: "list_all (\<lambda>r. length r = 2) (rows t0)" "distinct (first_values t0)"
    "set (first_values t0) = set (key_values df group')"
    by (simp_all add: group_index_def)
  have "carries t group'"
    using c r g(1) unfolding t1 by (auto simp add: carries_def list_all_iff)
  moreover have "first_column t = Some group'"
    using c by (simp add: first_column_def)
  ultimately show ?thesis
    using g(2,3) k unfolding t1 by (simp add: group_key_column_def)
qed

text \<open>
  C8. The claim: every table the aggregation helpers derive contains the group-key column,
  named as the group key of the input, as its first column, so that it can be the key of
  a later merge. What the helpers do: the table \<open>add_sum_by_group\<close> returns, and each of
  the first ten tables of the list \<open>add_calculation_by_group\<close> returns, in the order of
  \<open>statistics\<close>, is the table pandas returned for that statistic with its two columns
  renamed to \<open>[group, column_suffix]\<close>. So the first column is named as the group key, and
  it holds, row by row, the first column of pandas' table. Where pandas' table is indexed
  by the group keys (\<open>group_index\<close>), the derived table has the group-key column: it carries
  the key, and the key column holds every group key of the input exactly once. Both helpers
  return (the second without an output file, so that no merge is involved) whenever pandas
  hands back two-column tables.
\<close>

theorem aggregate_tables_keep_group_key:
  "(add_sum_by_group groupby self df group' column output_file = Inr (t, w)
      \<longrightarrow> derived groupby df group' column (Agg_sum, ''_sum'') t \<and> w = save self t output_file)
   \<and> (add_calculation_by_group groupby merge self df group' column output_file add_merge_files = Inr (ts, ws)
      \<longrightarrow> list_all2 (derived groupby df group' column) statistics (take 10 ts))
   \<and> (derived groupby df group' column (a, suffix) d
      \<longrightarrow> (\<exists>t0. groupby a df group' column = Inr t0
                \<and> columns d = [group', column @ suffix] \<and> rows d = rows t0
                \<and> first_column d = Some group' \<and> key_values d group' = first_values t0
                \<and> (group_index df group' t0 \<longrightarrow> group_key_column df group' d)))
   \<and> ((\<forall>a. \<exists>t0. groupby a df group' column = Inr t0 \<and> length (columns t0) = 2)
      \<longrightarrow> (\<exists>t w. add_sum_by_group groupby self df group' column output_file = Inr (t, w))
        \<and> (\<exists>ts ws. add_calculation_by_group groupby merge self df group' column None add_merge_files
                     = Inr (ts, ws)))"
proof (intro conjI impI)
  assume "add_sum_by_group groupby self df group' column output_file = Inr (t, w)"
  then show "derived groupby df group' column (Agg_sum, ''_sum'') t" and "w = save self t output_file"
    by (simp_all add: add_sum_by_group_derived)
next
  assume "add_calculation_by_group groupby merge self df group' column output_file add_merge_files = Inr (ts, ws)"
  then show "list_all2 (derived groupby df group' column) statistics (take 10 ts)"
    by (rule add_calculation_by_group_tables)
next
  assume d: "derived groupby df group' column (a, suffix) d"
  then obtain t0 where t0: "groupby a df group' column = Inr t0"
    and c: "columns d = [group', column @ suffix]" and r: "rows d = rows t0"
    and k: "key_values d group' = first_values t0"
    by (rule derived_key_values)
  have "group_index df group' t0 \<longrightarrow> group_key_column df group' d"
    using d t0 by (auto intro: derived_group_key_column)
  with t0 c r k show "\<exists>t0. groupby a df group' column = Inr t0
                \<and> columns d = [group', column @ suffix] \<and> rows d = rows t0
                \<and> first_column d = Some group' \<and> key_values d group' = first_values t0
                \<and> (group_index df group' t0 \<longrightarrow> group_key_column df group' d)"
    by (simp add: first_column_def)
next
  assume r: "\<forall>a. \<exists>t0. groupby a df group' column = Inr t0 \<and> length (columns t0) = 2"
  then obtain t0 where "groupby Agg_sum df group' column = Inr t0" "length (columns t0) = 2"
    by blast
  then show "\<exists>t w. add_sum_by_group groupby self df group' column output_file = Inr (t, w)"
    by (simp add: add_sum_by_group_Inr)
  from r show "\<exists>ts ws. add_calculation_by_group groupby merge self df group' column None add_merge_files
                     = Inr (ts, ws)"
    by (rule add_calculation_by_group_returns)
qed


theorem aggregate_tables_keep_group_key_witness:
  "add_sum_by_group example_groupby default_Create example_df ''id'' ''x'' None
     = Inr (\<lparr>columns = [''id'', ''x_sum''], rows = [[1, 10], [2, 25]]\<rparr>, [])
   \<and> derived example_groupby example_df ''id'' ''x'' (Agg_sum, ''_sum'')
        \<lparr>columns = [''id'', ''x_sum''], rows = [[1, 10], [2, 25]]\<rparr>
   \<and> example_groupby Agg_sum example_df ''id'' ''x''
        = Inr \<lparr>columns = [''id'', ''x''], rows = [[1, 10], [2, 25]]\<rparr>
   \<and> group_index example_df ''id'' \<lparr>columns = [''id'', ''x''], rows = [[1, 10], [2, 25]]\<rparr>
   \<and> group_key_column example_df ''id'' \<lparr>columns = [''id'', ''x_sum''], rows = [[1, 10], [2, 25]]\<rparr>
   \<and> (\<forall>a. \<exists>t0. example_groupby a example_df ''id'' ''x'' = Inr t0 \<and> length (columns t0) = 2)
   \<and> (\<exists>ts ws. add_calculation_by_group example_groupby pd_merge default_Create example_df ''id'' ''x'' None None
                  = Inr (ts, ws)
         \<and> list_all2 (derived example_groupby example_df ''id'' ''x'') statistics (take 10 ts))"
proof -
  have p: "example_groupby a example_df ''id'' ''x''
             = Inr \<lparr>columns = [''id'', ''x''], rows = [[1, 10], [2, 25]]\<rparr>" for a
    by (simp add: example_groupby_def example_df_def key_values_def cell_def group_sum_def
        List.map_filter_simps)
  have s: "add_sum_by_group example_groupby default_Create example_df ''id'' ''x'' None
     = Inr (\<lparr>columns = [''id'', ''x_sum''], rows = [[1, 10], [2, 25]]\<rparr>, [])"
    by (simp add: add_sum_by_group_def grouped_def and_then_def p set_columns_def save_def)
  have i: "group_index example_df ''id'' \<lparr>columns = [''id'', ''x''], rows = [[1, 10], [2, 25]]\<rparr>"
    by (auto simp add: group_index_def first_values_def example_df_def key_values_def cell_def)
  have r: "\<forall>a. \<exists>t0. example_groupby a example_df ''id'' ''x'' = Inr t0 \<and> length (columns t0) = 2"
    by (simp add: p)
  note t = aggregate_tables_keep_group_key [of example_groupby default_Create example_df "''id''" "''x''"
      None "\<lparr>columns = [''id'', ''x_sum''], rows = [[1, 10], [2, 25]]\<rparr>" "[]" pd_merge None _ _
      Agg_sum "''_sum''" "\<lparr>columns = [''id'', ''x_sum''], rows = [[1, 10], [2, 25]]\<rparr>"]
  from t s have d: "derived example_groupby example_df ''id'' ''x'' (Agg_sum, ''_sum'')
        \<lparr>columns = [''id'', ''x_sum''], rows = [[1, 10], [2, 25]]\<rparr>"
    by blast
  with t have "\<exists>t0. example_groupby Agg_sum example_df ''id'' ''x'' = Inr t0
      \<and> (group_index example_df ''id'' t0
           \<longrightarrow> group_key_column example_df ''id'' \<lparr>columns = [''id'', ''x_sum''], rows = [[1, 10], [2, 25]]\<rparr>)"
    by blast
  with p i have k: "group_key_column example_df ''id'' \<lparr>columns = [''id'', ''x_sum''], rows = [[1, 10], [2, 25]]\<rparr>"
    by simp
  from t r obtain ts ws where
    c: "add_calculation_by_group example_groupby pd_merge default_Create example_df ''id'' ''x'' None None
          = Inr (ts, ws)"
    by blast
  from aggregate_tables_keep_group_key [of example_groupby default_Create example_df "''id''" "''x''"
      None _ _ pd_merge None ts ws] c
  have "list_all2 (derived example_groupby example_df ''id'' ''x'') statistics (take 10 ts)"
    by blast
  with s d p i k r c show ?thesis by blast
qed

section \<open>Merging on a key\<close>

lemma cell_append:
  assumes "length l = length lc" and "on \<in> set lc"
  shows "cell (lc @ rc) (l @ r) on = cell lc l on"
proof -
  from assms obtain v where "map_of (zip lc l) on = Some v"
    using map_of_zip_is_Some [of lc l on] by auto
  then show ?thesis
    using assms(1) by (simp add: cell_def map_add_Some_iff)
qed

lemma without_append:
  "length l = length lc \<Longrightarrow> without on (lc @ rc) (l @ r) = without on lc l @ without on rc r"
  by (simp add: without_def)

lemma zip_without:
  "zip (filter (\<lambda>c. c \<noteq> on) rc) (without on rc r) = filter (\<lambda>(c, v). c \<noteq> on) (zip rc r)"
proof (induction rc arbitrary: r)
  case Nil
  then show ?case by (simp add: without_def)
next
  case (Cons c rc)
  then show ?case by (cases r) (simp_all add: without_def)
qed

lemma without_twice:
  "without on (filter (\<lambda>c. c \<noteq> on) rc) (without on rc r) = without on rc r"
proof -
  have "without on (filter (\<lambda>c. c \<noteq> on) rc) (without on rc r)
          = map snd (filter (\<lambda>(c, v). c \<noteq> on) (zip (filter (\<lambda>c. c \<noteq> on) rc) (without on rc r)))"
    by (simp add: without_def)
  also have "\<dots> = map snd (filter (\<lambda>(c, v). c \<noteq> on) (zip rc r))"
    by (simp add: zip_without)
  finally show ?thesis by (simp add: without_def)
qed

lemma length_without:
  "length r = length rc \<Longrightarrow> length (without on rc r) = length (filter (\<lambda>c. c \<noteq> on) rc)"
proof (induction rc arbitrary: r)
  case Nil
  then show ?case by (simp add: without_def)
next
  case (Cons c rc)
  then show ?case by (cases r) (simp_all add: without_def)
qed


lemma concat_map_concat:
  "concat (map f (concat xss)) = concat (map (\<lambda>xs. concat (map f xs)) xss)"
  by (induction xss) simp_all

lemma join_rows_assoc_row:
  assumes la: "length la = length ca" "on \<in> set ca"
    and cb: "on \<in> set cb"
    and B: "list_all (\<lambda>r. length r = length cb) B"
  shows "concat (map (\<lambda>x. map (\<lambda>rc. x @ without on cc rc)
                         (filter (\<lambda>rc. cell cc rc on = cell (ca @ filter (\<lambda>c. c \<noteq> on) cb) x on) C))
                  (map (\<lambda>rb. la @ without on cb rb) (filter (\<lambda>rb. cell cb rb on = cell ca la on) B)))
         = map (\<lambda>x. la @ without on (cb @ filter (\<lambda>c. c \<noteq> on) cc) x)
             (filter (\<lambda>x. cell (cb @ filter (\<lambda>c. c \<noteq> on) cc) x on = cell ca la on)
                (join_rows on cb B cc C))"
  using B
proof (induction B)
  case Nil
  then show ?case by (simp add: join_rows_def)
next
  case (Cons rb B)
  then have rb: "length rb = length cb" and B: "list_all (\<lambda>r. length r = length cb) B"
    by simp_all
  have key_ab: "cell (ca @ filter (\<lambda>c. c \<noteq> on) cb) (la @ without on cb rb) on = cell ca la on"
    using la by (rule cell_append)
  have key_bc: "cell (cb @ filter (\<lambda>c. c \<noteq> on) cc) (rb @ without on cc rc) on = cell cb rb on" for rc
    using rb cb by (rule cell_append)
  have drop_bc: "without on (cb @ filter (\<lambda>c. c \<noteq> on) cc) (rb @ without on cc rc)
                   = without on cb rb @ without on cc rc" for rc
    using rb by (simp add: without_append without_twice)
  have split: "join_rows on cb (rb # B) cc C
                 = map (\<lambda>rc. rb @ without on cc rc) (filter (\<lambda>rc. cell cc rc on = cell cb rb on) C)
                   @ join_rows on cb B cc C"
    by (simp add: join_rows_def)
  show ?case
  proof (cases "cell cb rb on = cell ca la on")
    case True
    then show ?thesis
      using Cons.IH [OF B] by (simp add: split key_ab key_bc drop_bc filter_map o_def)
  next
    case False
    then show ?thesis
      using Cons.IH [OF B] by (simp add: split key_bc filter_map o_def)
  qed
qed

lemma join_rows_assoc:
  assumes "on \<in> set ca" and "list_all (\<lambda>r. length r = length ca) A"
    and "on \<in> set cb" and "list_all (\<lambda>r. length r = length cb) B"
  shows "join_rows on (ca @ filter (\<lambda>c. c \<noteq> on) cb) (join_rows on ca A cb B) cc C
         = join_rows on ca A (cb @ filter (\<lambda>c. c \<noteq> on) cc) (join_rows on cb B cc C)"
proof -
  have "join_rows on (ca @ filter (\<lambda>c. c \<noteq> on) cb) (join_rows on ca A cb B) cc C
        = concat (map (\<lambda>la. concat (map (\<lambda>x. map (\<lambda>rc. x @ without on cc rc)
                         (filter (\<lambda>rc. cell cc rc on = cell (ca @ filter (\<lambda>c. c \<noteq> on) cb) x on) C))
                  (map (\<lambda>rb. la @ without on cb rb) (filter (\<lambda>rb. cell cb rb on = cell ca la on) B)))) A)"
    unfolding join_rows_def by (simp only: concat_map_concat map_map o_def)
  also have "\<dots> = concat (map (\<lambda>la. map (\<lambda>x. la @ without on (cb @ filter (\<lambda>c. c \<noteq> on) cc) x)
             (filter (\<lambda>x. cell (cb @ filter (\<lambda>c. c \<noteq> on) cc) x on = cell ca la on)
                (join_rows on cb B cc C))) A)"
  proof (rule arg_cong [where f = concat], rule map_cong [OF refl])
    fix la assume "la \<in> set A"
    with assms(2) have "length la = length ca"
      by (simp add: list_all_iff)
    then show "concat (map (\<lambda>x. map (\<lambda>rc. x @ without on cc rc)
                         (filter (\<lambda>rc. cell cc rc on = cell (ca @ filter (\<lambda>c. c \<noteq> on) cb) x on) C))
                  (map (\<lambda>rb. la @ without on cb rb) (filter (\<lambda>rb. cell cb rb on = cell ca la on) B)))
         = map (\<lambda>x. la @ without on (cb @ filter (\<lambda>c. c \<noteq> on) cc) x)
             (filter (\<lambda>x. cell (cb @ filter (\<lambda>c. c \<noteq> on) cc) x on = cell ca la on)
                (join_rows on cb B cc C))"
      using assms(1,3,4) by (rule join_rows_assoc_row)
  qed
  also have "\<dots> = join_rows on ca A (cb @ filter (\<lambda>c. c \<noteq> on) cc) (join_rows on cb B cc C)"
    by (simp add: join_rows_def)
  finally show ?thesis .
qed

lemma inner_join_assoc:
  assumes "carries a on" and "carries b on"
  shows "inner_join (inner_join a b on) c on = inner_join a (inner_join b c on) on"
  using assms join_rows_assoc [of on "columns a" "rows a" "columns b" "rows b" "columns c" "rows c"]
  by (simp add: inner_join_def carries_def)

lemma carries_inner_join:
  assumes "carries a on" and "carries b on"
  shows "carries (inner_join a b on) on"
proof -
  have "length r = length (columns a @ filter (\<lambda>c. c \<noteq> on) (columns b))"
    if "r \<in> set (join_rows on (columns a) (rows a) (columns b) (rows b))" for r
  proof -
    from that obtain la rb where "la \<in> set (rows a)" "rb \<in> set (rows b)"
      and r: "r = la @ without on (columns b) rb"
      by (auto simp add: join_rows_def)
    with assms have "length la = length (columns a)" "length rb = length (columns b)"
      by (simp_all add: carries_def list_all_iff)
    then show ?thesis
      by (simp add: r length_without)
  qed
  then show ?thesis
    using assms by (simp add: carries_def inner_join_def list_all_iff)
qed

lemma pd_merge_carries:
  "carries a on \<Longrightarrow> carries b on \<Longrightarrow> pd_merge a b on = Inr (inner_join a b on)"
  by (simp add: pd_merge_def carries_def)


lemma merge_loop_carries:
  assumes "carries x on" and "list_all (\<lambda>t. carries t on) ys"
  shows "merge_loop pd_merge x ys on = Inr (foldl (\<lambda>new_file f. inner_join new_file f on) x ys)
         \<and> carries (foldl (\<lambda>new_file f. inner_join new_file f on) x ys) on"
  using assms
proof (induction ys arbitrary: x)
  case Nil
  then show ?case by simp
next
  case (Cons y ys)
  then have "carries (inner_join x y on) on" and "list_all (\<lambda>t. carries t on) ys"
    by (simp_all add: carries_inner_join)
  from Cons.IH [OF this] show ?case
    using Cons.prems by (simp add: pd_merge_carries and_then_Inr_simp)
qed

lemma inner_join_foldl:
  assumes "carries x on" and "carries y on" and "list_all (\<lambda>t. carries t on) ys"
  shows "inner_join x (foldl (\<lambda>new_file f. inner_join new_file f on) y ys) on
         = foldl (\<lambda>new_file f. inner_join new_file f on) (inner_join x y on) ys"
  using assms
proof (induction ys arbitrary: y)
  case Nil
  then show ?case by simp
next
  case (Cons z zs)
  then have z: "carries z on" and zs: "list_all (\<lambda>t. carries t on) zs"
    by simp_all
  have "inner_join x (foldl (\<lambda>new_file f. inner_join new_file f on) (inner_join y z on) zs) on
        = foldl (\<lambda>new_file f. inner_join new_file f on) (inner_join x (inner_join y z on) on) zs"
    using Cons.prems(1) carries_inner_join [OF Cons.prems(2) z] zs by (rule Cons.IH)
  also have "inner_join x (inner_join y z on) on = inner_join (inner_join x y on) z on"
    using Cons.prems(1,2) by (simp add: inner_join_assoc)
  finally show ?case by simp
qed

lemma tables_not_Nil: "tables g \<noteq> []"
  by (induction g) simp_all

lemma merge_grouping_foldl:
  assumes "list_all (\<lambda>t. carries t on) (tables g)" and "tables g = x # xs"
  shows "merge_grouping pd_merge g on = Inr (foldl (\<lambda>new_file f. inner_join new_file f on) x xs)"
  using assms
proof (induction g arbitrary: x xs)
  case (Table t)
  then show ?case by simp
next
  case (Merged l r)
  obtain a as where l: "tables l = a # as"
    using tables_not_Nil [of l] by (cases "tables l") simp_all
  obtain b bs where r: "tables r = b # bs"
    using tables_not_Nil [of r] by (cases "tables r") simp_all
  from Merged.prems l r have x: "x = a" "xs = as @ b # bs"
    by simp_all
  from Merged.prems(1) l r have ca: "carries a on" "list_all (\<lambda>t. carries t on) as"
    and cb: "carries b on" "list_all (\<lambda>t. carries t on) bs"
    by simp_all
  have el: "merge_grouping pd_merge l on = Inr (foldl (\<lambda>new_file f. inner_join new_file f on) a as)"
    using Merged.prems(1) l by (intro Merged.IH(1)) simp_all
  have er: "merge_grouping pd_merge r on = Inr (foldl (\<lambda>new_file f. inner_join new_file f on) b bs)"
    using Merged.prems(1) r by (intro Merged.IH(2)) simp_all
  have cl: "carries (foldl (\<lambda>new_file f. inner_join new_file f on) a as) on"
    using merge_loop_carries [OF ca] by simp
  have cr: "carries (foldl (\<lambda>new_file f. inner_join new_file f on) b bs) on"
    using merge_loop_carries [OF cb] by simp
  have "merge_grouping pd_merge (Merged l r) on
        = Inr (inner_join (foldl (\<lambda>new_file f. inner_join new_file f on) a as)
                 (foldl (\<lambda>new_file f. inner_join new_file f on) b bs) on)"
    using cl cr by (simp add: el er and_then_Inr_simp pd_merge_carries)
  also have "inner_join (foldl (\<lambda>new_file f. inner_join new_file f on) a as)
                 (foldl (\<lambda>new_file f. inner_join new_file f on) b bs) on
             = foldl (\<lambda>new_file f. inner_join new_file f on)
                 (inner_join (foldl (\<lambda>new_file f. inner_join new_file f on) a as) b on) bs"
    using cl cb by (rule inner_join_foldl)
  finally show ?case by (simp add: x)
qed

lemma join_rows_disjoint:
  assumes "set (map (\<lambda>r. cell lcols r on) lrows) \<inter> set (map (\<lambda>r. cell rcols r on) rrows) = {}"
  shows "join_rows on lcols lrows rcols rrows = []"
proof -
  have "filter (\<lambda>r. cell rcols r on = cell lcols l on) rrows = []" if "l \<in> set lrows" for l
    using assms that by (auto simp add: filter_empty_conv)
  then show ?thesis
    by (simp add: join_rows_def)
qed

text \<open>
  C6. Two tables that both have the key column and share no key value: \<open>merge_files\<close>
  writes a table without rows. (The key column is any \<open>on\<close>; the claim's is \<open>id\<close>.)
\<close>

theorem merge_files_disjoint_keys_empty:
  assumes "on \<in> set (columns a)" and "on \<in> set (columns b)"
    and "set (key_values a on) \<inter> set (key_values b on) = {}"
  shows "\<exists>t. merge_files pd_merge self [a, b] on (Some file) = Inr [to_file self t file]
             \<and> rows t = []"
proof -
  have "rows (inner_join a b on) = []"
    using assms(3) by (simp add: inner_join_def key_values_def join_rows_disjoint)
  moreover have "merge_files pd_merge self [a, b] on (Some file)
                   = Inr [to_file self (inner_join a b on) file]"
    using assms(1,2) by (simp add: merge_files_def pd_merge_def and_then_def save_def)
  ultimately show ?thesis by blast
qed

theorem merge_files_disjoint_keys_empty_witness:
  "''id'' \<in> set (columns example_a) \<and> ''id'' \<in> set (columns example_d)
   \<and> set (key_values example_a ''id'') \<inter> set (key_values example_d ''id'') = {}
   \<and> (\<exists>t. merge_files pd_merge default_Create [example_a, example_d] ''id'' (Some ''out.csv'')
              = Inr [to_file default_Create t ''out.csv''] \<and> rows t = [])"
proof -
  have h: "''id'' \<in> set (columns example_a)" "''id'' \<in> set (columns example_d)"
    "set (key_values example_a ''id'') \<inter> set (key_values example_d ''id'') = {}"
    by (simp_all add: example_a_def example_d_def key_values_def cell_def)
  from merge_files_disjoint_keys_empty [OF h] h show ?thesis by blast
qed

text \<open>
  C7. Tables that all carry the key, each key value at most once per table: \<open>merge_files\<close>
  joins them from the left, and every grouping of the pairwise joins over the same tables
  in the same order yields the rows that \<open>merge_files\<close> writes, so any two groupings
  yield the same set of rows. (The proof does not use that the key values are distinct.)
\<close>

theorem merge_files_grouping:
  assumes "tables g1 = files" and "tables g2 = files"
    and "list_all (\<lambda>t. carries t on) files"
    and "list_all (\<lambda>t. distinct (key_values t on)) files"
  shows "\<exists>merged t1 t2.
           merge_files pd_merge self files on (Some file) = Inr [to_file self merged file]
           \<and> merge_grouping pd_merge g1 on = Inr t1 \<and> merge_grouping pd_merge g2 on = Inr t2
           \<and> set (rows t1) = set (rows merged) \<and> set (rows t2) = set (rows merged)"
proof -
  obtain x xs where files: "files = x # xs"
    using assms(1) tables_not_Nil [of g1] by (cases files) auto
  let ?m = "foldl (\<lambda>new_file f. inner_join new_file f on) x xs"
  have "merge_loop pd_merge x xs on = Inr ?m"
    using assms(3) merge_loop_carries [of x on xs] by (simp add: files)
  then have "merge_files pd_merge self files on (Some file) = Inr [to_file self ?m file]"
    by (simp add: merge_files_def files and_then_def save_def)
  moreover have "merge_grouping pd_merge g1 on = Inr ?m"
    using assms(1,3) by (intro merge_grouping_foldl) (simp_all add: files)
  moreover have "merge_grouping pd_merge g2 on = Inr ?m"
    using assms(2,3) by (intro merge_grouping_foldl) (simp_all add: files)
  ultimately show ?thesis by blast
qed
theorem merge_files_grouping_witness:
  "tables (Merged (Merged (Table example_a) (Table example_b)) (Table example_c))
     = [example_a, example_b, example_c]
   \<and> tables (Merged (Table example_a) (Merged (Table example_b) (Table example_c)))
     = [example_a, example_b, example_c]
   \<and> list_all (\<lambda>t. carries t ''id'') [example_a, example_b, example_c]
   \<and> list_all (\<lambda>t. distinct (key_values t ''id'')) [example_a, example_b, example_c]
   \<and> (\<exists>merged t1 t2.
         merge_files pd_merge default_Create [example_a, example_b, example_c] ''id'' (Some ''out.csv'')
           = Inr [to_file default_Create merged ''out.csv'']
         \<and> merge_grouping pd_merge (Merged (Merged (Table example_a) (Table example_b)) (Table example_c)) ''id''
             = Inr t1
         \<and> merge_grouping pd_merge (Merged (Table example_a) (Merged (Table example_b) (Table example_c))) ''id''
             = Inr t2
         \<and> set (rows t1) = set (rows merged) \<and> set (rows t2) = set (rows merged))"
proof -
  have h: "tables (Merged (Merged (Table example_a) (Table example_b)) (Table example_c))
     = [example_a, example_b, example_c]"
    "tables (Merged (Table example_a) (Merged (Table example_b) (Table example_c)))
     = [example_a, example_b, example_c]"
    "list_all (\<lambda>t. carries t ''id'') [example_a, example_b, example_c]"
    "list_all (\<lambda>t. distinct (key_values t ''id'')) [example_a, example_b, example_c]"
    by (simp_all add: carries_def key_values_def cell_def example_a_def example_b_def example_c_def)
  from merge_files_grouping [OF h, of default_Create "''out.csv''"] h show ?thesis
    by simp
qed

end
